theory Spec2Isabelle
  imports Complex_Main "HOL-Library.Log_Nat"
begin

section \<open>The replica monitor: lag statistics and the polling loop\<close>

text \<open>
  A shallow embedding of \<^verbatim>\<open>main.go\<close>. The program has one global,
  \<^verbatim>\<open>replicationStats\<close>, one function \<^verbatim>\<open>showReplicaStatus\<close> that runs one
  status query and updates the global, and the endless loop of \<^verbatim>\<open>main\<close>.

  Conventions of the model:
  \<^item> \<^verbatim>\<open>int\<close> is the 64-bit integer of the targets the program is built for. A
    lag is kept as an \<open>int\<close> of HOL and differences of lags wrap around.
  \<^item> \<^verbatim>\<open>float64\<close> values are the reals they stand for, and each operation rounds
    its exact result to the nearest \<^verbatim>\<open>float64\<close>. The update of the statistics
    records the denominators of its divisions (\<open>divisors\<close>).
  \<^item> Output written with \<^verbatim>\<open>fmt\<close> and \<^verbatim>\<open>log\<close> is kept as a list of events; the
    lines that only render a field or a rate are left out.
\<close>

subsection \<open>Machine arithmetic\<close>

text \<open>
  \<^verbatim>\<open>int\<close> and \<^verbatim>\<open>int64\<close> hold 64 bits: a difference that leaves the range wraps
  around. \<^verbatim>\<open>/\<close> and \<^verbatim>\<open>%\<close> on integers truncate towards zero (they are used with a
  positive divisor only).
\<close>

definition wrap64 :: "int \<Rightarrow> int" where
  "wrap64 n = (n + 2 ^ 63) mod 2 ^ 64 - 2 ^ 63"

definition quo :: "int \<Rightarrow> int \<Rightarrow> int" where
  "quo a b = (if 0 \<le> a then a div b else - ((- a) div b))"

definition rem :: "int \<Rightarrow> int \<Rightarrow> int" where
  "rem a b = (if 0 \<le> a then a mod b else - ((- a) mod b))"

text \<open>
  A \<^verbatim>\<open>float64\<close> is modelled by the real number it stands for. A conversion or an
  operation gives the exact result rounded to the nearest number with a
  significand of 53 bits, a tie going to the even significand. \<open>exponent a\<close> is
  the power of two at or below a positive \<open>a\<close>. The exponent is not bounded in
  the model, so there is no infinity, NaN or subnormal number: the update divides
  64-bit integers and durations only, by a time difference of a nanosecond at
  least or by a rate that is not zero, which stays far inside the range.
\<close>

definition roundEven :: "real \<Rightarrow> int" where
  "roundEven x =
     (let f = \<lfloor>x\<rfloor>; r = x - of_int f
      in if r < 1 / 2 then f
         else if 1 / 2 < r then f + 1
         else if even f then f else f + 1)"

definition exponent :: "real \<Rightarrow> int" where
  "exponent a = (if 1 \<le> a then bitlen \<lfloor>a\<rfloor> - 1 else - bitlen (\<lceil>1 / a\<rceil> - 1))"

definition round64 :: "real \<Rightarrow> real" where
  "round64 x =
     (if x = 0 then 0
      else (let e = exponent \<bar>x\<bar> - 52
            in of_int (roundEven (x / 2 powi e)) * 2 powi e))"

text \<open>The conversion \<^verbatim>\<open>float64(n)\<close>, the division and the sum of two \<^verbatim>\<open>float64\<close>.\<close>

definition float64 :: "int \<Rightarrow> real" where
  "float64 n = round64 (of_int n)"

definition fdiv :: "real \<Rightarrow> real \<Rightarrow> real" where
  "fdiv a b = round64 (a / b)"

definition fadd :: "real \<Rightarrow> real \<Rightarrow> real" where
  "fadd a b = round64 (a + b)"

subsection \<open>\<^verbatim>\<open>time.Time\<close> and \<^verbatim>\<open>time.Duration\<close>\<close>

text \<open>
  A \<^verbatim>\<open>time.Time\<close> is a struct of a clock reading and a location pointer. The
  model keeps the reading as nanoseconds since the zero instant (one time line:
  wall clock and monotonic clock are not told apart) and whether the location
  pointer is set. \<^verbatim>\<open>time.Time{}\<close> is the all-zero struct; a value of
  \<^verbatim>\<open>time.Now()\<close> carries the location \<^verbatim>\<open>Local\<close>, so the struct comparison
  \<^verbatim>\<open>t == (time.Time{})\<close> is false for it whatever the reading.

  A \<^verbatim>\<open>time.Duration\<close> is an \<^verbatim>\<open>int64\<close> of nanoseconds. \<^verbatim>\<open>Sub\<close> gives the
  difference of two readings, or the largest or smallest duration when the
  difference is out of range. \<^verbatim>\<open>Seconds\<close> is the library's
  \<^verbatim>\<open>float64(d / Second) + float64(d % Second) / 1e9\<close>.
\<close>

datatype Time = Time (instant: int) (located: bool)

type_synonym Duration = int

definition zeroTime :: Time where
  "zeroTime = Time 0 False"

definition Now :: "int \<Rightarrow> Time" where
  "Now t = Time t True"

definition Second :: Duration where
  "Second = 1000000000"

definition minDuration :: Duration where
  "minDuration = - (2 ^ 63)"

definition maxDuration :: Duration where
  "maxDuration = 2 ^ 63 - 1"

definition Sub :: "Time \<Rightarrow> Time \<Rightarrow> Duration" where
  "Sub t u = max minDuration (min maxDuration (instant t - instant u))"

definition Add :: "Time \<Rightarrow> Duration \<Rightarrow> Time" where
  "Add t d = Time (instant t + d) (located t)"

definition Seconds :: "Duration \<Rightarrow> real" where
  "Seconds d = fadd (float64 (quo d Second)) (fdiv (float64 (rem d Second)) 1000000000)"

definition IsZero :: "Time \<Rightarrow> bool" where
  "IsZero t = (instant t = 0)"

text \<open>
  The conversion \<^verbatim>\<open>time.Duration(x)\<close> of a \<^verbatim>\<open>float64\<close> drops the fraction. Its
  result, and the product with \<^verbatim>\<open>time.Second\<close> that follows it at line 197, are
  kept as unbounded integers: the product leaves the range of \<^verbatim>\<open>int64\<close> only for
  an estimate more than 292 years ahead, and for a \<^verbatim>\<open>float64\<close> beyond that range
  the language leaves the result of the conversion to the implementation.
\<close>

definition toDuration :: "real \<Rightarrow> Duration" where
  "toDuration x = (if 0 \<le> x then \<lfloor>x\<rfloor> else \<lceil>x\<rceil>)"

subsection \<open>The global \<^verbatim>\<open>replicationStats\<close>\<close>

record ReplicationStats =
  lastSecondsBehind :: int
  lastCheckTime :: Time
  ratePerSecond :: real
  estimatedTime :: Time
  startSecondsBehind :: int
  startTime :: Time
  totalTimeElapsed :: real
  averageRatePerSecond :: real

text \<open>The zero value the global holds when the process starts.\<close>

definition replicationStats :: ReplicationStats where
  "replicationStats =
     \<lparr> lastSecondsBehind = 0, lastCheckTime = zeroTime, ratePerSecond = 0,
       estimatedTime = zeroTime, startSecondsBehind = 0, startTime = zeroTime,
       totalTimeElapsed = 0, averageRatePerSecond = 0 \<rparr>"

subsection \<open>The update of the statistics (lines 181 to 211)\<close>

text \<open>
  The block of \<^verbatim>\<open>showReplicaStatus\<close> that runs once \<^verbatim>\<open>Seconds_Behind_Source\<close>
  has been scanned into \<^verbatim>\<open>seconds\<close>, step by step. The steps that divide return,
  next to the new statistics, the denominators of the \<^verbatim>\<open>float64\<close> divisions they
  executed, in order.
\<close>

text \<open>Lines 182 to 185.\<close>

definition initStart :: "ReplicationStats \<Rightarrow> int \<Rightarrow> Time \<Rightarrow> ReplicationStats" where
  "initStart s seconds now =
     (if startTime s = zeroTime
      then s\<lparr>startSecondsBehind := seconds, startTime := now\<rparr>
      else s)"

text \<open>Lines 188 to 200.\<close>

definition shortTerm :: "ReplicationStats \<Rightarrow> int \<Rightarrow> Time \<Rightarrow> ReplicationStats \<times> real list" where
  "shortTerm s seconds now =
     (if lastCheckTime s \<noteq> zeroTime then
        (let timeDiff = Seconds (Sub now (lastCheckTime s)) in
         if timeDiff > 0 then
           (let secondsDiff = wrap64 (seconds - lastSecondsBehind s);
                s1 = s\<lparr>ratePerSecond := fdiv (float64 secondsDiff) timeDiff\<rparr>
            in if ratePerSecond s1 < 0 then
                 (let secondsToCatchUp = fdiv (float64 seconds) (- ratePerSecond s1)
                  in (s1\<lparr>estimatedTime := Add now (toDuration secondsToCatchUp * Second)\<rparr>,
                      [timeDiff, - ratePerSecond s1]))
               else (s1, [timeDiff]))
         else (s, []))
      else (s, []))"

text \<open>Lines 203 to 207. The local \<^verbatim>\<open>totalTimeElapsed\<close> hides the field of that name.\<close>

definition longTerm :: "ReplicationStats \<Rightarrow> int \<Rightarrow> Time \<Rightarrow> ReplicationStats \<times> real list" where
  "longTerm s seconds now =
     (let totalTimeElapsed = Seconds (Sub now (startTime s)) in
      if totalTimeElapsed > 0 then
        (let totalSecondsDiff = wrap64 (seconds - startSecondsBehind s)
         in (s\<lparr>averageRatePerSecond := fdiv (float64 totalSecondsDiff) totalTimeElapsed\<rparr>,
             [totalTimeElapsed]))
      else (s, []))"

text \<open>The whole block; lines 210 and 211 close it.\<close>

definition update :: "ReplicationStats \<Rightarrow> int \<Rightarrow> Time \<Rightarrow> ReplicationStats \<times> real list" where
  "update s seconds now =
     (let s1 = initStart s seconds now;
          (s2, d2) = shortTerm s1 seconds now;
          (s3, d3) = longTerm s2 seconds now
      in (s3\<lparr>lastSecondsBehind := seconds, lastCheckTime := now\<rparr>, d2 @ d3))"

definition updateStats :: "ReplicationStats \<Rightarrow> int \<Rightarrow> Time \<Rightarrow> ReplicationStats" where
  "updateStats s seconds now = fst (update s seconds now)"

definition divisors :: "ReplicationStats \<Rightarrow> int \<Rightarrow> Time \<Rightarrow> real list" where
  "divisors s seconds now = snd (update s seconds now)"

text \<open>
  A sample is a lag value with the clock reading of the \<^verbatim>\<open>time.Now()\<close> of its
  cycle (line 99); \<open>feed\<close> is the update for one sample.
\<close>

type_synonym sample = "int \<times> int"

definition feed :: "ReplicationStats \<Rightarrow> sample \<Rightarrow> ReplicationStats" where
  "feed s x = updateStats s (fst x) (Now (snd x))"

text \<open>
  The instant ETA that the report prints, if it prints one (the tests of lines 236,
  237 and 239 around the lines that render \<^verbatim>\<open>estimatedTime\<close>).
\<close>

definition instantETA :: "ReplicationStats \<Rightarrow> Time option" where
  "instantETA s =
     (if ratePerSecond s \<noteq> 0 then
        (if ratePerSecond s < 0 then
           (if \<not> IsZero (estimatedTime s) then Some (estimatedTime s) else None)
         else None)
      else None)"

subsection \<open>\<^verbatim>\<open>regexp.MatchString\<close>\<close>

text \<open>
  The regular expression library is not part of the program. A pattern without
  any of the characters that \<^verbatim>\<open>regexp.QuoteMeta\<close> escapes, and of ASCII only,
  denotes itself and matches wherever it occurs in the subject; that part is
  defined here. Every other pattern is left to a parameter \<open>re\<close>, the library's
  engine, which answers with an error for a pattern that does not compile.
\<close>

datatype regexp_error = BadPattern

type_synonym regexp = "string \<Rightarrow> string \<Rightarrow> regexp_error + bool"

definition metachars :: string where
  "metachars = CHR 0x5C # ''.+*?()|[]{}^$''"

definition literal :: "string \<Rightarrow> bool" where
  "literal p = list_all (\<lambda>c. c \<notin> set metachars \<and> (of_char c :: nat) < 128) p"

fun startsWith :: "string \<Rightarrow> string \<Rightarrow> bool" where
  "startsWith [] s = True"
| "startsWith (c # p) [] = False"
| "startsWith (c # p) (d # s) = (c = d \<and> startsWith p s)"

fun occursIn :: "string \<Rightarrow> string \<Rightarrow> bool" where
  "occursIn p [] = (p = [])"
| "occursIn p (d # s) = (startsWith p (d # s) \<or> occursIn p s)"

definition MatchString :: "regexp \<Rightarrow> string \<Rightarrow> string \<Rightarrow> regexp_error + bool" where
  "MatchString re pattern s =
     (if literal pattern then Inr (occursIn pattern s) else re pattern s)"

subsection \<open>What a cycle does to the outside\<close>

datatype message =
    QueryFailed | ColumnsFailed | ScanFailed | NoStatusFound
  | RegexFailed string | PatternFound string
  | ErrorDetected | ExecutingSkip | SkipFailed | SkipSucceeded

datatype event =
    Query
  | Exec
  | Sleep Duration
  | Said message

subsection \<open>The answer to \<^verbatim>\<open>SHOW REPLICA STATUS\<close>\<close>

text \<open>
  A scanned value is \<^verbatim>\<open>nil\<close> (here \<open>None\<close>), a byte slice, a string, or some
  other value, kept as the text \<^verbatim>\<open>fmt.Sprintf("%v", v)\<close> gives for it. A row is
  the list of its columns with their values, in the order of \<^verbatim>\<open>rows.Columns()\<close>.
\<close>

datatype driver_value = Bytes string | Str string | Other string

fun strVal :: "driver_value \<Rightarrow> string" where
  "strVal (Bytes v) = v"
| "strVal (Str v) = v"
| "strVal (Other v) = v"

type_synonym row = "(string \<times> driver_value option) list"

datatype query_result = QueryError | ColumnsError | NoRow | ScanError | OneRow row

definition errorPatterns :: "string list" where
  "errorPatterns = [''Coordinator stopped'']"

definition keyFields :: "string list" where
  "keyFields =
     [''Replica_IO_State'', ''Source_Host'', ''Source_Port'', ''Replica_IO_Running'',
      ''Replica_SQL_Running'', ''Replicate_Do_DB'', ''Replicate_Ignore_DB'',
      ''Last_IO_Error'', ''Last_SQL_Error'', ''Seconds_Behind_Source'']"

subsection \<open>\<^verbatim>\<open>showReplicaStatus\<close>\<close>

text \<open>
  The body of the loop over \<^verbatim>\<open>keyFields\<close> (lines 156 to 320) for one field. The
  inner loop stops at the first column of that name, which is what \<open>map_of\<close>
  finds. \<open>scan\<close> stands for \<^verbatim>\<open>fmt.Sscanf(strVal, "%d", &seconds)\<close>: the number
  read, or \<open>None\<close> when it returns an error. The state of the loop is the local
  \<^verbatim>\<open>lastSQLError\<close> with the global statistics.
\<close>

definition handleField ::
  "(string \<Rightarrow> int option) \<Rightarrow> Time \<Rightarrow> row \<Rightarrow> string \<times> ReplicationStats \<Rightarrow> string
     \<Rightarrow> string \<times> ReplicationStats" where
  "handleField scan now r st field =
     (case map_of r field of
        None \<Rightarrow> st
      | Some None \<Rightarrow> st
      | Some (Some val) \<Rightarrow>
          (let lastSQLError =
                 (if field = ''Last_SQL_Error'' then strVal val else fst st)
           in if field = ''Seconds_Behind_Source'' then
                (if strVal val \<noteq> ''NULL'' \<and> strVal val \<noteq> [] then
                   (case scan (strVal val) of
                      Some seconds \<Rightarrow> (lastSQLError, updateStats (snd st) seconds now)
                    | None \<Rightarrow> (lastSQLError, snd st))
                 else (lastSQLError, snd st))
              else (lastSQLError, snd st)))"

text \<open>
  The loop over the patterns (lines 326 to 336), with \<^verbatim>\<open>hasError\<close> carried along.
\<close>

fun checkPatterns :: "regexp \<Rightarrow> string list \<Rightarrow> string \<Rightarrow> bool \<Rightarrow> bool \<times> event list" where
  "checkPatterns re [] lastSQLError hasError = (hasError, [])"
| "checkPatterns re (pattern # ps) lastSQLError hasError =
     (case MatchString re pattern lastSQLError of
        Inl err \<Rightarrow>
          (let (h, evs) = checkPatterns re ps lastSQLError hasError
           in (h, Said (RegexFailed pattern) # evs))
      | Inr matched \<Rightarrow>
          (if matched then
             (let (h, evs) = checkPatterns re ps lastSQLError True
              in (h, Said (PatternFound pattern) # evs))
           else checkPatterns re ps lastSQLError hasError))"

text \<open>Lines 325 to 337, for any list of patterns.\<close>

definition errorCheck :: "regexp \<Rightarrow> string list \<Rightarrow> string \<Rightarrow> bool \<times> event list" where
  "errorCheck re patterns lastSQLError =
     (if lastSQLError \<noteq> [] then checkPatterns re patterns lastSQLError False
      else (False, []))"

text \<open>
  The function, given the statistics, the clock reading of line 99 and what the
  database answers. It returns \<^verbatim>\<open>hasError\<close>, the new statistics and the events.
\<close>

definition showReplicaStatus ::
  "(string \<Rightarrow> int option) \<Rightarrow> regexp \<Rightarrow> ReplicationStats \<Rightarrow> int \<Rightarrow> query_result
     \<Rightarrow> bool \<times> ReplicationStats \<times> event list" where
  "showReplicaStatus scan re s t res =
     (let now = Now t in
      case res of
        QueryError \<Rightarrow> (False, s, [Query, Said QueryFailed])
      | ColumnsError \<Rightarrow> (False, s, [Query, Said ColumnsFailed])
      | ScanError \<Rightarrow> (False, s, [Query, Said ScanFailed])
      | NoRow \<Rightarrow> (False, s, [Query, Said NoStatusFound])
      | OneRow r \<Rightarrow>
          (let (lastSQLError, s') = foldl (handleField scan now r) ([], s) keyFields;
               (hasError, evs) = errorCheck re errorPatterns lastSQLError
           in (hasError, s', Query # evs)))"

subsection \<open>The loop of \<^verbatim>\<open>main\<close>\<close>

text \<open>
  What the outside supplies in one iteration: the clock reading, the answer to
  the status query, and whether \<^verbatim>\<open>CALL mysql.rds_skip_repl_error\<close> would succeed.
\<close>

record cycle =
  clock :: int
  status :: query_result
  skipOk :: bool

text \<open>One iteration of the loop (lines 78 to 94).\<close>

definition iteration ::
  "(string \<Rightarrow> int option) \<Rightarrow> regexp \<Rightarrow> ReplicationStats \<Rightarrow> cycle
     \<Rightarrow> ReplicationStats \<times> event list" where
  "iteration scan re s c =
     (let (hasError, s', evs) = showReplicaStatus scan re s (clock c) (status c) in
      if hasError then
        (s', evs @ [Said ErrorDetected, Said ExecutingSkip, Exec,
                    Said (if skipOk c then SkipSucceeded else SkipFailed)])
      else (s', evs @ [Sleep (5 * Second)]))"

text \<open>
  The loop has no exit. \<open>mainLoop\<close> gives the events of its first iterations, one
  for each element of the list, and the statistics they leave.
\<close>

fun mainLoop ::
  "(string \<Rightarrow> int option) \<Rightarrow> regexp \<Rightarrow> ReplicationStats \<Rightarrow> cycle list
     \<Rightarrow> ReplicationStats \<times> event list" where
  "mainLoop scan re s [] = (s, [])"
| "mainLoop scan re s (c # cs) =
     (let (s', evs) = iteration scan re s c;
          (s'', evs') = mainLoop scan re s' cs
      in (s'', evs @ evs'))"

section \<open>Properties\<close>

subsection \<open>Facts about the arithmetic\<close>

lemma bitlen_pos: "0 < n \<Longrightarrow> 1 \<le> bitlen n"
  using bitlen_nonneg [of n] bitlen_eq_zero_iff [of n] by linarith

lemma exponent_bounds:
  assumes "0 < a"
  shows "2 powi exponent a \<le> a \<and> a < 2 powi (exponent a + 1)"
proof (cases "1 \<le> a")
  case True
  let ?n = "\<lfloor>a\<rfloor>"
  from True have n: "0 < ?n" by simp
  from bitlen_bounds [OF n] have lo: "2 ^ nat (bitlen ?n - 1) \<le> ?n" and hi: "?n < 2 ^ nat (bitlen ?n)"
    by simp_all
  from bitlen_pos [OF n] have b: "1 \<le> bitlen ?n" .
  have "(2::real) powi (bitlen ?n - 1) = of_int (2 ^ nat (bitlen ?n - 1))"
    using b by (simp add: power_int_nonneg_exp)
  also have "\<dots> \<le> of_int ?n" using lo by (simp only: of_int_le_iff)
  also have "\<dots> \<le> a" by simp
  finally have 1: "2 powi (bitlen ?n - 1) \<le> a" .
  from hi have "?n + 1 \<le> 2 ^ nat (bitlen ?n)" by simp
  then have "of_int (?n + 1) \<le> (of_int (2 ^ nat (bitlen ?n)) :: real)"
    by (simp only: of_int_le_iff)
  then have "of_int ?n + 1 \<le> (2 ^ nat (bitlen ?n) :: real)" by simp
  moreover have "a < of_int ?n + 1" by linarith
  ultimately have "a < 2 ^ nat (bitlen ?n)" by linarith
  moreover have "(2::real) powi (bitlen ?n) = 2 ^ nat (bitlen ?n)"
    using b by (simp add: power_int_nonneg_exp)
  ultimately have 2: "a < 2 powi (bitlen ?n - 1 + 1)" by simp
  from 1 2 True show ?thesis by (simp add: exponent_def)
next
  case False
  let ?y = "1 / a"
  let ?c = "\<lceil>?y\<rceil> - 1"
  let ?k = "bitlen ?c"
  from False assms have y: "1 < ?y" by simp
  then have c: "0 < ?c" by linarith
  from bitlen_bounds [OF c] have lo: "2 ^ nat (?k - 1) \<le> ?c" and hi: "?c < 2 ^ nat ?k"
    by simp_all
  from bitlen_pos [OF c] have k: "1 \<le> ?k" .
  from hi have "?c + 1 \<le> 2 ^ nat ?k" by simp
  then have "of_int (?c + 1) \<le> (of_int (2 ^ nat ?k) :: real)"
    by (simp only: of_int_le_iff)
  then have "of_int ?c + 1 \<le> (2 ^ nat ?k :: real)" by simp
  moreover have "?y \<le> of_int ?c + 1" by linarith
  ultimately have "?y \<le> 2 ^ nat ?k" by linarith
  with assms have "1 / 2 ^ nat ?k \<le> a"
    by (simp add: field_simps)
  moreover have "(2::real) powi (- ?k) = 1 / 2 ^ nat ?k"
    using k by (simp add: power_int_minus_divide power_int_nonneg_exp)
  ultimately have 1: "2 powi (- ?k) \<le> a" by simp
  from lo have "(of_int (2 ^ nat (?k - 1)) :: real) \<le> of_int ?c"
    by (simp only: of_int_le_iff)
  then have "(2 ^ nat (?k - 1) :: real) \<le> of_int ?c" by simp
  moreover have "of_int ?c < ?y" by linarith
  ultimately have "2 ^ nat (?k - 1) < ?y" by linarith
  with assms have "a < 1 / 2 ^ nat (?k - 1)"
    by (simp add: field_simps)
  moreover have "(2::real) powi (- ?k + 1) = 1 / 2 ^ nat (?k - 1)"
    using k power_int_minus_divide [of "2::real" "?k - 1"] by (simp add: power_int_nonneg_exp)
  ultimately have 2: "a < 2 powi (- ?k + 1)" by simp
  from 1 2 False show ?thesis by (simp add: exponent_def)
qed


lemma roundEven_of_int: "roundEven (of_int m) = m"
  by (simp add: roundEven_def)

lemma roundEven_minus: "roundEven (- x) = - roundEven x"
proof (cases "x = of_int \<lfloor>x\<rfloor>")
  case True
  then obtain m where "x = of_int m" ..
  then have "roundEven (- x) = roundEven (of_int (- m))" by simp
  also have "\<dots> = - m" by (rule roundEven_of_int)
  finally show ?thesis using \<open>x = of_int m\<close> by (simp add: roundEven_of_int)
next
  case False
  then have fl: "\<lfloor>- x\<rfloor> = - \<lfloor>x\<rfloor> - 1"
    by (metis ceiling_altdef ceiling_def add_diff_cancel_right' minus_diff_eq uminus_add_conv_diff
        minus_minus)
  have r: "0 < x - of_int \<lfloor>x\<rfloor>" using False by (smt (verit) of_int_floor_le)
  show ?thesis
    unfolding roundEven_def Let_def fl using r
    by (auto simp add: field_simps)
qed

lemma round64_zero: "round64 0 = 0"
  by (simp add: round64_def)

lemma round64_minus: "round64 (- x) = - round64 x"
  by (simp add: round64_def Let_def roundEven_minus)






lemma round64_exact_pos:
  assumes m: "0 < m" "m < 2 ^ 53"
  shows "round64 (of_int m * 2 powi k) = of_int m * 2 powi k"
proof -
  let ?x = "real_of_int m * 2 powi k"
  let ?e = "exponent \<bar>?x\<bar> - 52"
  from m have x: "0 < ?x" by simp
  from exponent_bounds [OF x] have lo: "2 powi exponent ?x \<le> ?x" by simp
  from m(2) have "real_of_int m < 2 ^ 53" by (metis of_int_less_iff of_int_numeral of_int_power)
  then have "?x < 2 ^ 53 * 2 powi k" by simp
  also have "\<dots> = 2 powi (53 + k)"
    using power_int_add [of "2::real" 53 k] by simp
  finally have "2 powi exponent ?x < (2::real) powi (53 + k)" using lo by linarith
  then have "exponent ?x < 53 + k"
    by (smt (verit) power_int_increasing)
  then have d: "0 \<le> k - ?e" using x by simp
  have "?x / 2 powi ?e = of_int m * 2 powi (k - ?e)"
    by (simp add: power_int_diff)
  also have "\<dots> = of_int (m * 2 ^ nat (k - ?e))"
    using d by (simp add: power_int_nonneg_exp)
  finally have "roundEven (?x / 2 powi ?e) = m * 2 ^ nat (k - ?e)"
    by (simp only: roundEven_of_int)
  then have "real_of_int (roundEven (?x / 2 powi ?e)) * 2 powi ?e
      = real_of_int m * (2 powi (k - ?e) * 2 powi ?e)"
    using d by (simp add: power_int_nonneg_exp)
  also have "2 powi (k - ?e) * 2 powi ?e = (2::real) powi k"
    using power_int_add [of "2::real" "k - ?e" ?e] by simp
  finally show ?thesis using x by (simp add: round64_def Let_def)
qed

lemma round64_exact:
  assumes "\<bar>m\<bar> < 2 ^ 53"
  shows "round64 (of_int m * 2 powi k) = of_int m * 2 powi k"
proof -
  consider "m = 0" | "0 < m" | "m < 0" by linarith
  then show ?thesis
  proof cases
    case 1
    then show ?thesis by (simp add: round64_zero)
  next
    case 2
    with assms show ?thesis by (intro round64_exact_pos) simp_all
  next
    case 3
    with assms have "round64 (of_int (- m) * 2 powi k) = of_int (- m) * 2 powi k"
      by (intro round64_exact_pos) simp_all
    then show ?thesis using round64_minus [of "of_int m * 2 powi k"] by simp
  qed
qed

lemma round64_of_int: "\<bar>m\<bar> < 2 ^ 53 \<Longrightarrow> round64 (of_int m) = of_int m"
  using round64_exact [of m 0] by simp

lemma round64_numeral: "(numeral w :: int) < 2 ^ 53 \<Longrightarrow> round64 (numeral w) = numeral w"
  using round64_of_int [of "numeral w"] by simp

lemma round64_one: "round64 1 = 1"
  using round64_of_int [of 1] by simp

lemma round64_numeral_half:
  "(numeral w :: int) < 2 ^ 53 \<Longrightarrow> round64 (numeral w / 2) = numeral w / 2"
  using round64_exact [of "numeral w" "- 1"] by simp

lemma round64_one_half: "round64 (1 / 2) = 1 / 2"
  using round64_exact [of 1 "- 1"] by simp


lemmas float_evals =
  float64_def fdiv_def fadd_def round64_zero round64_one round64_minus round64_numeral
  round64_numeral_half round64_one_half



lemma Sub_same: "Sub t t = 0"
  by (simp add: Sub_def minDuration_def maxDuration_def)

lemma Seconds_zero: "Seconds 0 = 0"
  by (simp add: Seconds_def quo_def rem_def float_evals)




subsection \<open>Facts about the update\<close>

lemmas update_defs =
  updateStats_def divisors_def update_def initStart_def shortTerm_def longTerm_def

lemmas time_defs =
  zeroTime_def Now_def Add_def Sub_def minDuration_def maxDuration_def Seconds_def quo_def
  rem_def wrap64_def Second_def toDuration_def IsZero_def

lemma Now_not_zero: "Now t \<noteq> zeroTime"
  by (simp add: Now_def zeroTime_def)

lemma updateStats_keeps_start:
  "startTime s \<noteq> zeroTime \<Longrightarrow>
     startTime (updateStats s seconds now) = startTime s \<and>
     startSecondsBehind (updateStats s seconds now) = startSecondsBehind s"
  by (simp add: update_defs Let_def split_def)

lemma updateStats_sets_start:
  "startTime s = zeroTime \<Longrightarrow>
     startTime (updateStats s seconds now) = now \<and>
     startSecondsBehind (updateStats s seconds now) = seconds"
  by (simp add: update_defs Let_def split_def)

lemma feeds_keep_start:
  "startTime s \<noteq> zeroTime \<Longrightarrow>
     startTime (foldl feed s xs) = startTime s \<and>
     startSecondsBehind (foldl feed s xs) = startSecondsBehind s"
proof (induction xs arbitrary: s)
  case Nil
  then show ?case by simp
next
  case (Cons x xs)
  have k: "startTime (feed s x) = startTime s
      \<and> startSecondsBehind (feed s x) = startSecondsBehind s"
    using Cons.prems by (simp add: feed_def updateStats_keeps_start)
  with Cons.prems have "startTime (feed s x) \<noteq> zeroTime" by simp
  from Cons.IH [OF this] k show ?case by simp
qed







lemma after_one:
  "feed replicationStats (100, 1000 * Second) =
     \<lparr> lastSecondsBehind = 100, lastCheckTime = Now (1000 * Second), ratePerSecond = 0,
       estimatedTime = zeroTime, startSecondsBehind = 100,
       startTime = Now (1000 * Second), totalTimeElapsed = 0, averageRatePerSecond = 0 \<rparr>"
  by (simp add: feed_def update_defs replicationStats_def time_defs float_evals Let_def)

lemma after_two:
  "foldl feed replicationStats [(100, 1000 * Second), (90, 1010 * Second)] =
     \<lparr> lastSecondsBehind = 90, lastCheckTime = Now (1010 * Second), ratePerSecond = - 1,
       estimatedTime = Now (1100 * Second), startSecondsBehind = 100,
       startTime = Now (1000 * Second), totalTimeElapsed = 0, averageRatePerSecond = - 1 \<rparr>"
  by (simp add: feed_def update_defs replicationStats_def time_defs float_evals Let_def)

subsection \<open>The trend of the lag\<close>







text \<open>
  C3. A call that has no earlier sample, or whose clock reading is not after the
  one of the earlier sample, leaves the short-term rate as it was. A call that
  sets the start, or whose clock reading is not after the start time, leaves the
  average rate as it was. Every denominator of a division in the update is
  positive, so none is zero.
\<close>

theorem C3_rates_guarded:
  "(lastCheckTime s = zeroTime \<or> Seconds (Sub now (lastCheckTime s)) \<le> 0 \<longrightarrow>
      ratePerSecond (updateStats s seconds now) = ratePerSecond s)
   \<and> (startTime s = zeroTime \<or> Seconds (Sub now (startTime s)) \<le> 0 \<longrightarrow>
      averageRatePerSecond (updateStats s seconds now) = averageRatePerSecond s)
   \<and> (\<forall>d \<in> set (divisors s seconds now). 0 < d)"
proof (intro conjI)
  show "lastCheckTime s = zeroTime \<or> Seconds (Sub now (lastCheckTime s)) \<le> 0 \<longrightarrow>
      ratePerSecond (updateStats s seconds now) = ratePerSecond s"
    by (auto simp add: update_defs Let_def split_def)
  show "startTime s = zeroTime \<or> Seconds (Sub now (startTime s)) \<le> 0 \<longrightarrow>
      averageRatePerSecond (updateStats s seconds now) = averageRatePerSecond s"
    by (auto simp add: update_defs Let_def split_def Sub_same Seconds_zero)
  show "\<forall>d \<in> set (divisors s seconds now). 0 < d"
    by (auto simp add: update_defs Let_def split_def split: if_splits)
qed

text \<open>
  The witness takes the statistics after the samples 100 and 90, whose rates are
  both \<open>-1\<close>. A third sample at the clock reading of the first changes neither
  rate; one taken ten seconds after the second divides by 10, 4 and 20.
\<close>

theorem C3_rates_guarded_witness:
  "ratePerSecond
       (updateStats (foldl feed replicationStats [(100, 1000 * Second), (90, 1010 * Second)])
          50 (Now (1000 * Second))) = - 1
   \<and> averageRatePerSecond
       (updateStats (foldl feed replicationStats [(100, 1000 * Second), (90, 1010 * Second)])
          50 (Now (1000 * Second))) = - 1
   \<and> divisors (foldl feed replicationStats [(100, 1000 * Second), (90, 1010 * Second)])
          50 (Now (1020 * Second)) = [10, 4, 20]
   \<and> list_all (\<lambda>d. 0 < d)
        (divisors (foldl feed replicationStats [(100, 1000 * Second), (90, 1010 * Second)])
          50 (Now (1020 * Second)))"
proof -
  let ?s = "foldl feed replicationStats [(100, 1000 * Second), (90, 1010 * Second)]"
  have early: "Seconds (Sub (Now (1000 * Second)) (lastCheckTime ?s)) \<le> 0"
      "Seconds (Sub (Now (1000 * Second)) (startTime ?s)) \<le> 0"
    unfolding after_two by (simp_all add: time_defs float_evals)
  have before: "ratePerSecond ?s = - 1" "averageRatePerSecond ?s = - 1"
    unfolding after_two by simp_all
  have divs: "divisors ?s 50 (Now (1020 * Second)) = [10, 4, 20]"
    unfolding after_two by (simp add: update_defs time_defs float_evals Let_def)
  from C3_rates_guarded [of ?s "Now (1000 * Second)" 50] early before
  have "ratePerSecond (updateStats ?s 50 (Now (1000 * Second))) = - 1"
      "averageRatePerSecond (updateStats ?s 50 (Now (1000 * Second))) = - 1"
    by simp_all
  moreover from C3_rates_guarded [of ?s "Now (1020 * Second)" 50]
  have "list_all (\<lambda>d. 0 < d) (divisors ?s 50 (Now (1020 * Second)))"
    by (simp add: list_all_iff)
  ultimately show ?thesis using divs by simp
qed

text \<open>
  C8. Starting from the zero statistics, the sample 100 at the clock reading
  \<open>t0\<close> followed by the sample 90 ten seconds later leaves the short-term rate at
  \<open>-1\<close> and the estimated time at \<open>t0\<close> plus 100 seconds.
\<close>

theorem C8_rate_and_eta:
  "ratePerSecond
     (updateStats (updateStats replicationStats 100 (Now t0)) 90 (Add (Now t0) (10 * Second))) = - 1
   \<and> estimatedTime
     (updateStats (updateStats replicationStats 100 (Now t0)) 90 (Add (Now t0) (10 * Second)))
       = Add (Now t0) (100 * Second)"
  by (simp add: update_defs replicationStats_def time_defs float_evals Let_def)

subsection \<open>Facts about one cycle\<close>

lemma handleField_plain:
  "field \<noteq> ''Last_SQL_Error'' \<Longrightarrow> field \<noteq> ''Seconds_Behind_Source'' \<Longrightarrow>
     handleField scan now r st field = st"
  by (simp add: handleField_def split: option.splits)

lemma handleField_error:
  "handleField scan now r st ''Last_SQL_Error'' =
     (case map_of r ''Last_SQL_Error'' of
        Some (Some val) \<Rightarrow> (strVal val, snd st)
      | _ \<Rightarrow> st)"
  by (simp add: handleField_def split: option.splits)

lemma handleField_lag:
  "handleField scan now r st ''Seconds_Behind_Source'' =
     (case map_of r ''Seconds_Behind_Source'' of
        Some (Some val) \<Rightarrow>
          (if strVal val \<noteq> ''NULL'' \<and> strVal val \<noteq> [] then
             (case scan (strVal val) of
                Some seconds \<Rightarrow> (fst st, updateStats (snd st) seconds now)
              | None \<Rightarrow> st)
           else st)
      | _ \<Rightarrow> st)"
  by (simp add: handleField_def split: option.splits)

lemma fields_loop:
  "foldl (handleField scan now r) st keyFields =
     handleField scan now r (handleField scan now r st ''Last_SQL_Error'') ''Seconds_Behind_Source''"
  by (simp add: keyFields_def handleField_plain)

lemma fields_loop_error:
  "fst (foldl (handleField scan now r) st keyFields) =
     (case map_of r ''Last_SQL_Error'' of
        Some (Some val) \<Rightarrow> strVal val
      | _ \<Rightarrow> fst st)"
  by (simp add: fields_loop handleField_error handleField_lag split: option.splits)

lemma fields_loop_stats:
  "snd (foldl (handleField scan now r) st keyFields) =
     (case map_of r ''Seconds_Behind_Source'' of
        Some (Some val) \<Rightarrow>
          (if strVal val \<noteq> ''NULL'' \<and> strVal val \<noteq> [] then
             (case scan (strVal val) of
                Some seconds \<Rightarrow> updateStats (snd st) seconds now
              | None \<Rightarrow> snd st)
           else snd st)
      | _ \<Rightarrow> snd st)"
  by (simp add: fields_loop handleField_error handleField_lag split: option.splits)

lemma showReplicaStatus_row:
  "showReplicaStatus scan re s t (OneRow r) =
     (fst (errorCheck re errorPatterns (fst (foldl (handleField scan (Now t) r) ([], s) keyFields))),
      snd (foldl (handleField scan (Now t) r) ([], s) keyFields),
      Query # snd (errorCheck re errorPatterns (fst (foldl (handleField scan (Now t) r) ([], s) keyFields))))"
  by (simp add: showReplicaStatus_def split_def Let_def)

lemma showReplicaStatus_stats:
  "fst (snd (showReplicaStatus scan re s t res)) = s
   \<or> (\<exists>seconds. fst (snd (showReplicaStatus scan re s t res)) = updateStats s seconds (Now t))"
proof (cases res)
  case (OneRow r')
  then show ?thesis
    by (auto simp add: showReplicaStatus_row fields_loop_stats split: option.splits)
qed (simp_all add: showReplicaStatus_def)

lemma lit: "literal ''Coordinator stopped''"
  by (simp add: literal_def metachars_def)



lemma checkPatterns_result:
  "fst (checkPatterns re ps e h) = (h \<or> (\<exists>p \<in> set ps. MatchString re p e = Inr True))"
proof (induction ps arbitrary: h)
  case Nil
  then show ?case by simp
next
  case (Cons p ps)
  show ?case
  proof (cases "MatchString re p e")
    case (Inl err)
    then show ?thesis by (simp add: split_def Let_def Cons.IH)
  next
    case (Inr m)
    then show ?thesis by (cases m) (auto simp add: split_def Let_def Cons.IH)
  qed
qed

lemma checkPatterns_said:
  "\<forall>ev \<in> set (snd (checkPatterns re ps e h)). \<exists>m. ev = Said m"
proof (induction ps arbitrary: h)
  case Nil
  then show ?case by simp
next
  case (Cons p ps)
  show ?case
  proof (cases "MatchString re p e")
    case (Inl err)
    then show ?thesis using Cons.IH [of h] by (simp add: split_def Let_def)
  next
    case (Inr m)
    then show ?thesis using Cons.IH [of h] Cons.IH [of True] by (cases m) (simp_all add: split_def Let_def)
  qed
qed

lemma showReplicaStatus_events:
  "\<exists>evs. snd (snd (showReplicaStatus scan re s t res)) = Query # evs
      \<and> (\<forall>ev \<in> set evs. \<exists>m. ev = Said m)"
proof (cases res)
  case (OneRow r)
  then show ?thesis
    by (simp add: showReplicaStatus_row errorCheck_def checkPatterns_said)
qed (simp_all add: showReplicaStatus_def)

lemma iteration_events:
  "\<exists>evs. snd (iteration scan re s c) = Query # evs"
  using showReplicaStatus_events [of scan re s "clock c" "status c"]
  by (auto simp add: iteration_def split_def Let_def)

lemma iteration_stats:
  "fst (iteration scan re s c) = fst (snd (showReplicaStatus scan re s (clock c) (status c)))"
  by (simp add: iteration_def split_def Let_def)

lemma iteration_keeps_start:
  assumes "startTime s \<noteq> zeroTime"
  shows "startTime (fst (iteration scan re s c)) = startTime s
    \<and> startSecondsBehind (fst (iteration scan re s c)) = startSecondsBehind s"
  using showReplicaStatus_stats [of scan re s "clock c" "status c"] assms
  by (auto simp add: iteration_stats updateStats_keeps_start)

lemma mainLoop_keeps_start:
  "startTime s \<noteq> zeroTime \<Longrightarrow>
     startTime (fst (mainLoop scan re s cs)) = startTime s
     \<and> startSecondsBehind (fst (mainLoop scan re s cs)) = startSecondsBehind s"
proof (induction cs arbitrary: s)
  case Nil
  then show ?case by simp
next
  case (Cons c cs)
  from iteration_keeps_start [OF Cons.prems, of scan re c]
  have k: "startTime (fst (iteration scan re s c)) = startTime s"
      "startSecondsBehind (fst (iteration scan re s c)) = startSecondsBehind s"
    by simp_all
  with Cons.prems have "startTime (fst (iteration scan re s c)) \<noteq> zeroTime" by simp
  from Cons.IH [OF this] k show ?case by (simp add: split_def Let_def)
qed

subsection \<open>The start of the long-term average\<close>

text \<open>
  C7. The first sample fed to the zero statistics sets \<^verbatim>\<open>startTime\<close> and
  \<^verbatim>\<open>startSecondsBehind\<close>; that call leaves the short-term rate at 0 and produces
  no instant ETA. Whatever samples follow, the two fields keep the values of the
  first sample: once the start time is set, no update and no iteration of the
  loop changes either field.
\<close>

theorem C7_start_set_once:
  "startTime (feed replicationStats x) = Now (snd x)
   \<and> startSecondsBehind (feed replicationStats x) = fst x
   \<and> ratePerSecond (feed replicationStats x) = 0
   \<and> estimatedTime (feed replicationStats x) = zeroTime
   \<and> instantETA (feed replicationStats x) = None
   \<and> startTime (foldl feed replicationStats (x # xs)) = Now (snd x)
   \<and> startSecondsBehind (foldl feed replicationStats (x # xs)) = fst x
   \<and> (startTime s \<noteq> zeroTime \<longrightarrow>
        startTime (updateStats s seconds now) = startTime s
        \<and> startSecondsBehind (updateStats s seconds now) = startSecondsBehind s
        \<and> startTime (fst (mainLoop scan re s cs)) = startTime s
        \<and> startSecondsBehind (fst (mainLoop scan re s cs)) = startSecondsBehind s)"
proof -
  let ?s1 = "feed replicationStats x"
  have a: "startTime ?s1 = Now (snd x) \<and> startSecondsBehind ?s1 = fst x"
    by (simp add: feed_def updateStats_sets_start replicationStats_def)
  have b: "ratePerSecond ?s1 = 0 \<and> estimatedTime ?s1 = zeroTime"
    by (simp add: feed_def update_defs replicationStats_def Let_def Sub_same Seconds_zero)
  then have c: "instantETA ?s1 = None"
    by (simp add: instantETA_def)
  from a have "startTime ?s1 \<noteq> zeroTime" by (simp add: Now_not_zero)
  from feeds_keep_start [OF this, of xs] a
  have d: "startTime (foldl feed replicationStats (x # xs)) = Now (snd x)
      \<and> startSecondsBehind (foldl feed replicationStats (x # xs)) = fst x"
    by simp
  from a b c d show ?thesis
    by (simp add: updateStats_keeps_start mainLoop_keeps_start)
qed

theorem C7_start_set_once_witness:
  "startTime (feed replicationStats (100, 1000 * Second)) \<noteq> zeroTime
   \<and> startTime (fst (mainLoop (\<lambda>str. if str = ''90'' then Some 90 else None)
        (\<lambda>p e. Inl BadPattern) (feed replicationStats (100, 1000 * Second))
        [\<lparr>clock = 1010 * Second,
          status = OneRow [(''Seconds_Behind_Source'', Some (Bytes ''90''))],
          skipOk = True\<rparr>])) = Now (1000 * Second)
   \<and> startSecondsBehind (fst (mainLoop (\<lambda>str. if str = ''90'' then Some 90 else None)
        (\<lambda>p e. Inl BadPattern) (feed replicationStats (100, 1000 * Second))
        [\<lparr>clock = 1010 * Second,
          status = OneRow [(''Seconds_Behind_Source'', Some (Bytes ''90''))],
          skipOk = True\<rparr>])) = 100
   \<and> lastSecondsBehind (fst (mainLoop (\<lambda>str. if str = ''90'' then Some 90 else None)
        (\<lambda>p e. Inl BadPattern) (feed replicationStats (100, 1000 * Second))
        [\<lparr>clock = 1010 * Second,
          status = OneRow [(''Seconds_Behind_Source'', Some (Bytes ''90''))],
          skipOk = True\<rparr>])) = 90"
proof -
  let ?s = "feed replicationStats (100, 1000 * Second)"
  let ?scan = "\<lambda>str. if str = ''90'' then Some (90::int) else None"
  let ?re = "\<lambda>p e. Inl BadPattern :: regexp_error + bool"
  let ?cs = "[\<lparr>clock = 1010 * Second,
          status = OneRow [(''Seconds_Behind_Source'', Some (Bytes ''90''))],
          skipOk = True\<rparr>]"
  have set: "startTime ?s \<noteq> zeroTime" "startTime ?s = Now (1000 * Second)"
      "startSecondsBehind ?s = 100"
    unfolding after_one by (simp_all add: Now_not_zero)
  have upd: "lastSecondsBehind (fst (mainLoop ?scan ?re ?s ?cs)) = 90"
    by (simp add: iteration_stats showReplicaStatus_row fields_loop_stats split_def Let_def
        update_defs)
  from C7_start_set_once [of "(100, 1000 * Second)" "[]" ?s 90 "Now (1010 * Second)" ?scan ?re ?cs]
    set upd
  show ?thesis by simp
qed

subsection \<open>Cycles without a lag value\<close>

text \<open>
  C10. When the row has no column \<^verbatim>\<open>Seconds_Behind_Source\<close>, or its value is
  \<^verbatim>\<open>nil\<close>, the text \<^verbatim>\<open>NULL\<close>, empty, or not read as a number, the cycle leaves
  every field of the statistics as it was. A cycle that changes the statistics
  has read a number from a value that is none of these, and the change is the
  update for that number.
\<close>

theorem C10_frame:
  "(map_of r ''Seconds_Behind_Source'' = None
      \<or> map_of r ''Seconds_Behind_Source'' = Some None
      \<or> (\<exists>val. map_of r ''Seconds_Behind_Source'' = Some (Some val)
            \<and> (strVal val = ''NULL'' \<or> strVal val = [] \<or> scan (strVal val) = None))
    \<longrightarrow> fst (snd (showReplicaStatus scan re s t (OneRow r))) = s)
   \<and> (fst (snd (showReplicaStatus scan re s t (OneRow r))) \<noteq> s \<longrightarrow>
        (\<exists>val seconds. map_of r ''Seconds_Behind_Source'' = Some (Some val)
            \<and> strVal val \<noteq> ''NULL'' \<and> strVal val \<noteq> [] \<and> scan (strVal val) = Some seconds
            \<and> fst (snd (showReplicaStatus scan re s t (OneRow r))) = updateStats s seconds (Now t)))"
  by (auto simp add: showReplicaStatus_row fields_loop_stats split: option.splits)

theorem C10_frame_witness:
  "fst (snd (showReplicaStatus (\<lambda>str. if str = ''90'' then Some 90 else None)
       (\<lambda>p e. Inl BadPattern) replicationStats (1000 * Second)
       (OneRow [(''Seconds_Behind_Source'', None)]))) = replicationStats
   \<and> fst (snd (showReplicaStatus (\<lambda>str. if str = ''90'' then Some 90 else None)
       (\<lambda>p e. Inl BadPattern) replicationStats (1000 * Second)
       (OneRow [(''Seconds_Behind_Source'', Some (Bytes ''soon''))]))) = replicationStats
   \<and> fst (snd (showReplicaStatus (\<lambda>str. if str = ''90'' then Some 90 else None)
       (\<lambda>p e. Inl BadPattern) replicationStats (1000 * Second)
       (OneRow [(''Seconds_Behind_Source'', Some (Bytes ''90''))])))
     = updateStats replicationStats 90 (Now (1000 * Second))"
proof -
  let ?scan = "\<lambda>str. if str = ''90'' then Some (90::int) else None"
  let ?re = "\<lambda>p e. Inl BadPattern :: regexp_error + bool"
  let ?show = "\<lambda>r. fst (snd (showReplicaStatus ?scan ?re replicationStats (1000 * Second)
      (OneRow r)))"
  have null: "?show [(''Seconds_Behind_Source'', None)] = replicationStats"
    using C10_frame [of "[(''Seconds_Behind_Source'', None)]" ?scan ?re replicationStats
        "1000 * Second"]
    by simp
  have words: "?show [(''Seconds_Behind_Source'', Some (Bytes ''soon''))] = replicationStats"
    using C10_frame [of "[(''Seconds_Behind_Source'', Some (Bytes ''soon''))]" ?scan ?re
        replicationStats "1000 * Second"]
    by simp
  have "lastCheckTime (?show [(''Seconds_Behind_Source'', Some (Bytes ''90''))])
      \<noteq> lastCheckTime replicationStats"
    by (simp add: showReplicaStatus_row fields_loop_stats update_defs split_def Let_def
        replicationStats_def Now_not_zero)
  then have "?show [(''Seconds_Behind_Source'', Some (Bytes ''90''))] \<noteq> replicationStats"
    by auto
  with C10_frame [of "[(''Seconds_Behind_Source'', Some (Bytes ''90''))]" ?scan ?re
        replicationStats "1000 * Second"]
  have "?show [(''Seconds_Behind_Source'', Some (Bytes ''90''))]
      = updateStats replicationStats 90 (Now (1000 * Second))"
    by (auto split: if_splits)
  with null words show ?thesis by simp
qed

text \<open>
  C5. When the status query fails, or answers with no row, the cycle says so,
  \<^verbatim>\<open>showReplicaStatus\<close> returns false, the statistics stay as they were, and the
  iteration ends with the sleep of five seconds; the skip command is not run.
\<close>

theorem C5_no_snapshot:
  "status c = QueryError \<or> status c = NoRow \<Longrightarrow>
     fst (showReplicaStatus scan re s (clock c) (status c)) = False
     \<and> iteration scan re s c =
         (s, [Query, Said (if status c = QueryError then QueryFailed else NoStatusFound),
              Sleep (5 * Second)])"
  by (auto simp add: iteration_def showReplicaStatus_def)

theorem C5_no_snapshot_witness:
  "iteration (\<lambda>str. None) (\<lambda>p e. Inl BadPattern) replicationStats
       \<lparr>clock = 1000 * Second, status = QueryError, skipOk = True\<rparr>
     = (replicationStats, [Query, Said QueryFailed, Sleep (5 * Second)])
   \<and> iteration (\<lambda>str. None) (\<lambda>p e. Inl BadPattern) replicationStats
       \<lparr>clock = 1000 * Second, status = NoRow, skipOk = True\<rparr>
     = (replicationStats, [Query, Said NoStatusFound, Sleep (5 * Second)])"
proof -
  let ?failed = "\<lparr>clock = 1000 * Second, status = QueryError, skipOk = True\<rparr>"
  let ?empty = "\<lparr>clock = 1000 * Second, status = NoRow, skipOk = True\<rparr>"
  have f: "status ?failed = QueryError \<or> status ?failed = NoRow" by simp
  have e: "status ?empty = QueryError \<or> status ?empty = NoRow" by simp
  from C5_no_snapshot [OF f, of "\<lambda>str. None" "\<lambda>p e. Inl BadPattern" replicationStats]
    C5_no_snapshot [OF e, of "\<lambda>str. None" "\<lambda>p e. Inl BadPattern" replicationStats]
  show ?thesis by simp
qed

subsection \<open>The error patterns\<close>

text \<open>
  C6. An empty \<^verbatim>\<open>lastSQLError\<close> matches no list of patterns, and a row whose
  \<^verbatim>\<open>Last_SQL_Error\<close> is missing, \<^verbatim>\<open>nil\<close> or empty reports no error. The text
  \<^verbatim>\<open>Coordinator stopped unexpectedly\<close> matches the list of the program, whose one
  pattern occurs inside it.
\<close>

theorem C6_matcher:
  "fst (errorCheck re patterns []) = False
   \<and> fst (errorCheck re errorPatterns ''Coordinator stopped unexpectedly'') = True
   \<and> (map_of r ''Last_SQL_Error'' = None \<or> map_of r ''Last_SQL_Error'' = Some None
        \<or> (\<exists>val. map_of r ''Last_SQL_Error'' = Some (Some val) \<and> strVal val = [])
      \<longrightarrow> fst (showReplicaStatus scan re s t (OneRow r)) = False)
   \<and> ((\<exists>val. map_of r ''Last_SQL_Error'' = Some (Some val)
            \<and> strVal val = ''Coordinator stopped unexpectedly'')
      \<longrightarrow> fst (showReplicaStatus scan re s t (OneRow r)) = True)"
proof (intro conjI)
  show "fst (errorCheck re patterns []) = False"
    by (simp add: errorCheck_def)
  show hit: "fst (errorCheck re errorPatterns ''Coordinator stopped unexpectedly'') = True"
    by (simp add: errorCheck_def errorPatterns_def MatchString_def lit)
  show "map_of r ''Last_SQL_Error'' = None \<or> map_of r ''Last_SQL_Error'' = Some None
        \<or> (\<exists>val. map_of r ''Last_SQL_Error'' = Some (Some val) \<and> strVal val = [])
      \<longrightarrow> fst (showReplicaStatus scan re s t (OneRow r)) = False"
    by (auto simp add: showReplicaStatus_row fields_loop_error errorCheck_def)
  show "(\<exists>val. map_of r ''Last_SQL_Error'' = Some (Some val)
            \<and> strVal val = ''Coordinator stopped unexpectedly'')
      \<longrightarrow> fst (showReplicaStatus scan re s t (OneRow r)) = True"
    using hit by (auto simp add: showReplicaStatus_row fields_loop_error)
qed

theorem C6_matcher_witness:
  "fst (showReplicaStatus (\<lambda>str. None) (\<lambda>p e. Inl BadPattern) replicationStats (1000 * Second)
        (OneRow [(''Last_SQL_Error'', Some (Bytes ''Coordinator stopped unexpectedly''))]))
   \<and> \<not> fst (showReplicaStatus (\<lambda>str. None) (\<lambda>p e. Inl BadPattern) replicationStats
        (1000 * Second) (OneRow [(''Last_SQL_Error'', Some (Bytes []))]))
   \<and> \<not> fst (showReplicaStatus (\<lambda>str. None) (\<lambda>p e. Inl BadPattern) replicationStats
        (1000 * Second) (OneRow [(''Last_SQL_Error'', None)]))"
  using
    C6_matcher [of "\<lambda>p e. Inl BadPattern" "[]"
      "[(''Last_SQL_Error'', Some (Bytes ''Coordinator stopped unexpectedly''))]"
      "\<lambda>str. None" replicationStats "1000 * Second"]
    C6_matcher [of "\<lambda>p e. Inl BadPattern" "[]" "[(''Last_SQL_Error'', Some (Bytes []))]"
      "\<lambda>str. None" replicationStats "1000 * Second"]
    C6_matcher [of "\<lambda>p e. Inl BadPattern" "[]" "[(''Last_SQL_Error'', None)]"
      "\<lambda>str. None" replicationStats "1000 * Second"]
  by simp

text \<open>
  C9. A pattern whose evaluation fails is logged and adds nothing to the result:
  the loop goes on with the patterns after it. So, for a \<^verbatim>\<open>lastSQLError\<close> that is
  not empty, the result is true exactly when some pattern of the list matches.
\<close>

theorem C9_pattern_failure:
  "(MatchString re p e = Inl err \<longrightarrow>
      checkPatterns re (p # ps) e h =
        (fst (checkPatterns re ps e h), Said (RegexFailed p) # snd (checkPatterns re ps e h)))
   \<and> (e \<noteq> [] \<longrightarrow>
        fst (errorCheck re ps e) = (\<exists>q \<in> set ps. MatchString re q e = Inr True))"
  by (simp add: errorCheck_def checkPatterns_result split_def Let_def)

theorem C9_pattern_failure_witness:
  "MatchString (\<lambda>p s. Inl BadPattern) ''('' ''Coordinator stopped'' = Inl BadPattern
   \<and> ''Coordinator stopped'' \<noteq> []
   \<and> checkPatterns (\<lambda>p s. Inl BadPattern) [''('', ''Coordinator stopped''] ''Coordinator stopped'' False
       = (True, [Said (RegexFailed ''(''), Said (PatternFound ''Coordinator stopped'')])
   \<and> fst (errorCheck (\<lambda>p s. Inl BadPattern) [''('', ''Coordinator stopped''] ''Coordinator stopped'') = True"
  using C9_pattern_failure [of "\<lambda>p s. Inl BadPattern" "''(''" "''Coordinator stopped''" BadPattern
      "[''Coordinator stopped'']" False]
    C9_pattern_failure [of "\<lambda>p s. Inl BadPattern" "''(''" "''Coordinator stopped''" BadPattern
      "[''('', ''Coordinator stopped'']" False]
  by (simp add: MatchString_def literal_def metachars_def)

subsection \<open>The loop\<close>

text \<open>
  C4. In an iteration whose \<^verbatim>\<open>showReplicaStatus\<close> returns true, the skip command
  runs exactly once, as the last action but for the line that tells whether it
  succeeded; the iteration does not sleep, and the event after it is the status
  query of the next iteration.
\<close>

theorem C4_recover_then_poll:
  assumes hasError: "fst (showReplicaStatus scan re s (clock c) (status c))"
  shows "length (filter (\<lambda>ev. ev = Exec) (snd (iteration scan re s c))) = 1
    \<and> (\<exists>pre. snd (iteration scan re s c) =
          pre @ [Exec, Said (if skipOk c then SkipSucceeded else SkipFailed)])
    \<and> (\<forall>d. Sleep d \<notin> set (snd (iteration scan re s c)))
    \<and> (\<exists>rest. snd (mainLoop scan re s (c # c' # cs)) =
          snd (iteration scan re s c) @ Query # rest)"
proof -
  obtain evs where evs: "snd (snd (showReplicaStatus scan re s (clock c) (status c))) = Query # evs"
      and said: "\<forall>ev \<in> set evs. \<exists>m. ev = Said m"
    using showReplicaStatus_events by blast
  have it: "snd (iteration scan re s c) =
      Query # evs @ [Said ErrorDetected, Said ExecutingSkip, Exec,
                     Said (if skipOk c then SkipSucceeded else SkipFailed)]"
    using hasError evs by (simp add: iteration_def split_def Let_def)
  have noExec: "filter (\<lambda>ev. ev = Exec) evs = []"
    using said by (auto simp add: filter_empty_conv)
  have one: "length (filter (\<lambda>ev. ev = Exec) (snd (iteration scan re s c))) = 1"
    by (simp add: it noExec)
  have last2: "\<exists>pre. snd (iteration scan re s c) =
          pre @ [Exec, Said (if skipOk c then SkipSucceeded else SkipFailed)]"
  proof
    show "snd (iteration scan re s c) =
        (Query # evs @ [Said ErrorDetected, Said ExecutingSkip])
          @ [Exec, Said (if skipOk c then SkipSucceeded else SkipFailed)]"
      by (simp add: it)
  qed
  have noSleep: "\<forall>d. Sleep d \<notin> set (snd (iteration scan re s c))"
    using said by (auto simp add: it)
  obtain nxt where nxt: "snd (iteration scan re (fst (iteration scan re s c)) c') = Query # nxt"
    using iteration_events by blast
  have "snd (mainLoop scan re s (c # c' # cs)) =
      snd (iteration scan re s c) @ Query #
        (nxt @ snd (mainLoop scan re (fst (iteration scan re (fst (iteration scan re s c)) c')) cs))"
    by (simp add: split_def Let_def nxt)
  then have next_fetch: "\<exists>rest. snd (mainLoop scan re s (c # c' # cs)) =
          snd (iteration scan re s c) @ Query # rest"
    by blast
  from one last2 noSleep next_fetch show ?thesis by blast
qed

theorem C4_recover_then_poll_witness:
  "fst (showReplicaStatus (\<lambda>str. None) (\<lambda>p e. Inl BadPattern) replicationStats (1000 * Second)
        (OneRow [(''Last_SQL_Error'', Some (Bytes ''Coordinator stopped unexpectedly''))]))
   \<and> length (filter (\<lambda>ev. ev = Exec)
        (snd (iteration (\<lambda>str. None) (\<lambda>p e. Inl BadPattern) replicationStats
          \<lparr>clock = 1000 * Second,
            status = OneRow [(''Last_SQL_Error'', Some (Bytes ''Coordinator stopped unexpectedly''))],
            skipOk = False\<rparr>))) = 1
   \<and> snd (mainLoop (\<lambda>str. None) (\<lambda>p e. Inl BadPattern) replicationStats
        [\<lparr>clock = 1000 * Second,
           status = OneRow [(''Last_SQL_Error'', Some (Bytes ''Coordinator stopped unexpectedly''))],
           skipOk = False\<rparr>,
         \<lparr>clock = 1001 * Second, status = NoRow, skipOk = True\<rparr>])
     = [Query, Said (PatternFound ''Coordinator stopped''), Said ErrorDetected,
        Said ExecutingSkip, Exec, Said SkipFailed,
        Query, Said NoStatusFound, Sleep (5 * Second)]"
proof -
  let ?scan = "\<lambda>str. None :: int option"
  let ?re = "\<lambda>p e. Inl BadPattern :: regexp_error + bool"
  let ?r = "[(''Last_SQL_Error'', Some (Bytes ''Coordinator stopped unexpectedly''))]"
  let ?c = "\<lparr>clock = 1000 * Second, status = OneRow ?r, skipOk = False\<rparr>"
  let ?c' = "\<lparr>clock = 1001 * Second, status = NoRow, skipOk = True\<rparr>"
  have shown: "showReplicaStatus ?scan ?re replicationStats (1000 * Second) (OneRow ?r) =
      (True, replicationStats, [Query, Said (PatternFound ''Coordinator stopped'')])"
    by (simp add: showReplicaStatus_row fields_loop_stats fields_loop_error errorCheck_def
        errorPatterns_def MatchString_def lit)
  then have hasError: "fst (showReplicaStatus ?scan ?re replicationStats (clock ?c) (status ?c))"
    by simp
  have events: "snd (mainLoop ?scan ?re replicationStats [?c, ?c']) =
      [Query, Said (PatternFound ''Coordinator stopped''), Said ErrorDetected,
       Said ExecutingSkip, Exec, Said SkipFailed, Query, Said NoStatusFound, Sleep (5 * Second)]"
    by (simp add: iteration_def shown split_def Let_def) (simp add: showReplicaStatus_def)
  from C4_recover_then_poll [OF hasError, of "?c'" "[]"] shown events
  show ?thesis by simp
qed

end
